theory Spec2Isabelle
  imports Complex_Main "HOL-Library.Word"
begin

unbundle bit_operations_syntax

chapter \<open>The audio utilities and the live session of Gemini-Voice-AI\<close>

text \<open>
  The development embeds \<^verbatim>\<open>services/audioUtils.ts\<close> (the base64 framing, the
  float to 16-bit PCM conversion, the PCM decoder and the WAV container) and the
  handlers of \<^verbatim>\<open>components/LiveSession.tsx\<close> (\<^verbatim>\<open>cleanup\<close>, \<^verbatim>\<open>onmessage\<close>,
  \<^verbatim>\<open>onerror\<close>) and of the text-to-speech component that share them.
\<close>

section \<open>JavaScript values\<close>

text \<open>
  An element of a \<^verbatim>\<open>Uint8Array\<close> is an 8-bit word, an element of an \<^verbatim>\<open>Int16Array\<close> a
  16-bit word read as two's complement. A JavaScript string is its list of UTF-16 code
  units, each a natural number. A JavaScript number is a finite value or one of the three
  non-finite values; the finite values are reals here, and every arithmetic step taken on
  them below (a product of a 32-bit float with \<open>32767\<close> or \<open>32768\<close>, a quotient of a
  16-bit integer by \<open>32768\<close>) is exact in double precision.
\<close>

type_synonym byte = "8 word"
type_synonym int16 = "16 word"
type_synonym jsstring = "nat list"

datatype js_error = InvalidCharacterError | RangeError | NotSupportedError | InvalidStateError

datatype number = Num real | PosInf | NegInf | NaN

definition js :: "string \<Rightarrow> jsstring" where
  "js s = map of_char s"

text \<open>\<^verbatim>\<open>Math.min(c, x)\<close> and \<^verbatim>\<open>Math.max(c, x)\<close> for a finite constant \<open>c\<close>.\<close>

fun Math_min :: "real \<Rightarrow> number \<Rightarrow> number" where
  "Math_min c (Num x) = Num (min c x)"
| "Math_min c PosInf = Num c"
| "Math_min c NegInf = NegInf"
| "Math_min c NaN = NaN"

fun Math_max :: "real \<Rightarrow> number \<Rightarrow> number" where
  "Math_max c (Num x) = Num (max c x)"
| "Math_max c PosInf = PosInf"
| "Math_max c NegInf = Num c"
| "Math_max c NaN = NaN"

text \<open>The comparison \<^verbatim>\<open>s < 0\<close>: false on \<^verbatim>\<open>NaN\<close>.\<close>

fun lt_zero :: "number \<Rightarrow> bool" where
  "lt_zero (Num x) = (x < 0)"
| "lt_zero NegInf = True"
| "lt_zero PosInf = False"
| "lt_zero NaN = False"

text \<open>The product \<^verbatim>\<open>s * c\<close> with a positive finite constant \<open>c\<close>.\<close>

fun times_const :: "number \<Rightarrow> real \<Rightarrow> number" where
  "times_const (Num x) c = Num (x * c)"
| "times_const PosInf c = PosInf"
| "times_const NegInf c = NegInf"
| "times_const NaN c = NaN"

text \<open>
  Storing a number into an \<^verbatim>\<open>Int16Array\<close> applies ECMAScript's \<^verbatim>\<open>ToInt16\<close>: a
  non-finite value becomes \<open>0\<close>, a finite one is truncated towards zero and then reduced
  modulo \<open>2^16\<close>.
\<close>

definition trunc_zero :: "real \<Rightarrow> int" where
  "trunc_zero x = (if x < 0 then \<lceil>x\<rceil> else \<lfloor>x\<rfloor>)"

fun ToInt16 :: "number \<Rightarrow> int16" where
  "ToInt16 (Num x) = word_of_int (trunc_zero x)"
| "ToInt16 PosInf = 0"
| "ToInt16 NegInf = 0"
| "ToInt16 NaN = 0"

section \<open>The browser's \<^verbatim>\<open>btoa\<close> and \<^verbatim>\<open>atob\<close>\<close>

text \<open>
  \<^verbatim>\<open>btoa\<close> and \<^verbatim>\<open>atob\<close> belong to the platform; they follow the HTML standard: \<^verbatim>\<open>btoa\<close>
  refuses a string with a code unit above \<open>255\<close> and otherwise encodes the code units as
  bytes, three bytes to four characters, padded with \<^verbatim>\<open>=\<close>; \<^verbatim>\<open>atob\<close> is the
  forgiving decoder (ASCII whitespace removed, one or two padding characters removed from
  a string whose length is a multiple of four, failure on a length of \<open>1\<close> modulo \<open>4\<close>
  or on a character outside the alphabet, the left-over bits of a last short group
  dropped).
\<close>

definition b64_alphabet :: jsstring where
  "b64_alphabet = js ''ABCDEFGHIJKLMNOPQRSTUVWXYZabcdefghijklmnopqrstuvwxyz0123456789+/''"

fun index_of :: "'a \<Rightarrow> 'a list \<Rightarrow> nat option" where
  "index_of x [] = None"
| "index_of x (y # ys) = (if x = y then Some 0 else map_option Suc (index_of x ys))"

definition b64_index :: "nat \<Rightarrow> nat option" where
  "b64_index c = index_of c b64_alphabet"

fun bytes_to_sextets :: "nat list \<Rightarrow> nat list" where
  "bytes_to_sextets (a # b # c # rest) =
     [a div 4, (a mod 4) * 16 + b div 16, (b mod 16) * 4 + c div 64, c mod 64]
       @ bytes_to_sextets rest"
| "bytes_to_sextets [a, b] = [a div 4, (a mod 4) * 16 + b div 16, (b mod 16) * 4]"
| "bytes_to_sextets [a] = [a div 4, (a mod 4) * 16]"
| "bytes_to_sextets [] = []"

definition b64_chars :: "nat list \<Rightarrow> jsstring" where
  "b64_chars bs = map (\<lambda>i. b64_alphabet ! i) (bytes_to_sextets bs)"

definition base64_encode :: "nat list \<Rightarrow> jsstring" where
  "base64_encode bs = b64_chars bs @ replicate ((3 - length bs mod 3) mod 3) 61"

definition btoa :: "jsstring \<Rightarrow> js_error + jsstring" where
  "btoa s = (if list_ex (\<lambda>c. 255 < c) s then Inl InvalidCharacterError
             else Inr (base64_encode s))"

definition ascii_whitespace :: "nat \<Rightarrow> bool" where
  "ascii_whitespace c = (c = 9 \<or> c = 10 \<or> c = 12 \<or> c = 13 \<or> c = 32)"

definition strip_padding :: "jsstring \<Rightarrow> jsstring" where
  "strip_padding d =
     (if length d mod 4 = 0 \<and> d \<noteq> [] \<and> last d = 61
      then (let d1 = butlast d in if d1 \<noteq> [] \<and> last d1 = 61 then butlast d1 else d1)
      else d)"

fun sextets_to_bytes :: "nat list \<Rightarrow> nat list" where
  "sextets_to_bytes (p # q # r # s # rest) =
     [p * 4 + q div 16, (q mod 16) * 16 + r div 4, (r mod 4) * 64 + s]
       @ sextets_to_bytes rest"
| "sextets_to_bytes [p, q, r] = [p * 4 + q div 16, (q mod 16) * 16 + r div 4]"
| "sextets_to_bytes [p, q] = [p * 4 + q div 16]"
| "sextets_to_bytes [p] = []"
| "sextets_to_bytes [] = []"

definition atob :: "jsstring \<Rightarrow> js_error + jsstring" where
  "atob s =
     (let d = strip_padding (filter (\<lambda>c. \<not> ascii_whitespace c) s) in
      if length d mod 4 = 1 then Inl InvalidCharacterError
      else case those (map b64_index d) of
             None \<Rightarrow> Inl InvalidCharacterError
           | Some sx \<Rightarrow> Inr (sextets_to_bytes sx))"

section \<open>\<^verbatim>\<open>audioUtils\<close>: base64 framing\<close>

text \<open>
  \<^verbatim>\<open>base64ToUint8Array\<close> copies the code units of \<^verbatim>\<open>atob(base64)\<close> into a fresh
  \<^verbatim>\<open>Uint8Array\<close>; \<^verbatim>\<open>uint8ArrayToBase64\<close> appends \<^verbatim>\<open>String.fromCharCode(bytes[i])\<close> for
  every byte and hands the string to \<^verbatim>\<open>btoa\<close>. An exception of the platform function is
  the \<open>Inl\<close> result.
\<close>

definition base64ToUint8Array :: "jsstring \<Rightarrow> js_error + byte list" where
  "base64ToUint8Array base64 =
     (case atob base64 of
        Inl e \<Rightarrow> Inl e
      | Inr binaryString \<Rightarrow> Inr (map of_nat binaryString))"

definition uint8ArrayToBase64 :: "byte list \<Rightarrow> js_error + jsstring" where
  "uint8ArrayToBase64 bytes = btoa (map unat bytes)"

section \<open>\<^verbatim>\<open>audioUtils\<close>: the PCM codec\<close>

text \<open>
  \<^verbatim>\<open>float32ToB64PCM\<close> clamps each sample with \<^verbatim>\<open>Math.max(-1, Math.min(1, x))\<close>, stores
  \<^verbatim>\<open>s < 0 ? s * 0x8000 : s * 0x7FFF\<close> into an \<^verbatim>\<open>Int16Array\<close>, and reads the array's
  buffer as bytes (the low byte of each element first, the platform being little-endian).
\<close>

definition float32ToInt16 :: "number \<Rightarrow> int16" where
  "float32ToInt16 x =
     (let s = Math_max (- 1) (Math_min 1 x) in
      ToInt16 (if lt_zero s then times_const s 32768 else times_const s 32767))"

definition int16_bytes :: "int16 \<Rightarrow> byte list" where
  "int16_bytes w = [ucast w, ucast (drop_bit 8 w)]"

definition float32ToPCM :: "number list \<Rightarrow> byte list" where
  "float32ToPCM float32Array = concat (map (\<lambda>x. int16_bytes (float32ToInt16 x)) float32Array)"

definition float32ToB64PCM :: "number list \<Rightarrow> js_error + jsstring" where
  "float32ToB64PCM float32Array = uint8ArrayToBase64 (float32ToPCM float32Array)"

text \<open>
  \<^verbatim>\<open>pcmToAudioBuffer\<close> views the bytes as \<^verbatim>\<open>new Int16Array(buffer, byteOffset,
  byteLength / 2)\<close>. The array is always the fresh one of \<^verbatim>\<open>base64ToUint8Array\<close>, so
  the offset is \<open>0\<close>; the length argument goes through \<^verbatim>\<open>ToIndex\<close>, which truncates:
  a last odd byte is not part of the view. \<^verbatim>\<open>createBuffer\<close> raises
  \<^verbatim>\<open>NotSupportedError\<close> on a zero channel count, frame count or sample rate; the
  upper limits of an implementation lie beyond what the callers pass (one channel at
  \<open>24000\<close> Hz) and are left out. For several channels the frame count is the whole
  part of the quotient: the loop's writes past it fall outside the channel arrays and are
  ignored.
\<close>

fun Int16Array_view :: "byte list \<Rightarrow> int16 list" where
  "Int16Array_view (lo # hi # rest) = word_cat hi lo # Int16Array_view rest"
| "Int16Array_view [lo] = []"
| "Int16Array_view [] = []"

record audio_buffer =
  numberOfChannels :: nat
  frameCount :: nat
  sampleRate :: nat
  channelData :: "real list list"

definition duration :: "audio_buffer \<Rightarrow> real" where
  "duration b = real (frameCount b) / real (sampleRate b)"

definition createBuffer :: "nat \<Rightarrow> nat \<Rightarrow> nat \<Rightarrow> js_error + audio_buffer" where
  "createBuffer channels frames rate =
     (if channels = 0 \<or> frames = 0 \<or> rate = 0 then Inl NotSupportedError
      else Inr \<lparr>numberOfChannels = channels, frameCount = frames, sampleRate = rate,
                channelData = replicate channels (replicate frames 0)\<rparr>)"

definition pcmToAudioBuffer :: "byte list \<Rightarrow> nat \<Rightarrow> nat \<Rightarrow> js_error + audio_buffer" where
  "pcmToAudioBuffer data rate numChannels =
     (let dataInt16 = Int16Array_view data;
          frames = length dataInt16 div numChannels
      in case createBuffer numChannels frames rate of
           Inl e \<Rightarrow> Inl e
         | Inr buffer \<Rightarrow>
             Inr (buffer\<lparr>channelData :=
                    map (\<lambda>channel.
                           map (\<lambda>i. real_of_int (sint (dataInt16 ! (i * numChannels + channel)))
                                       / 32768)
                             [0..<frames])
                      [0..<numChannels]\<rparr>))"

section \<open>\<^verbatim>\<open>audioUtils\<close>: the WAV container\<close>

text \<open>
  \<^verbatim>\<open>pcmToWav\<close> writes through a \<^verbatim>\<open>DataView\<close> over a zeroed \<^verbatim>\<open>ArrayBuffer\<close> of
  \<open>44 + dataLength\<close> bytes. A setter raises \<^verbatim>\<open>RangeError\<close> when the write would pass
  the end of the buffer and stores its value modulo the width of the field. The numbers
  passed are lengths, rates and counts: naturals.
\<close>

fun and_then :: "'e + 'a \<Rightarrow> ('a \<Rightarrow> 'e + 'b) \<Rightarrow> 'e + 'b" where
  "and_then (Inl e) f = Inl e"
| "and_then (Inr x) f = f x"

definition setUint8 :: "byte list \<Rightarrow> nat \<Rightarrow> nat \<Rightarrow> js_error + byte list" where
  "setUint8 view byteOffset v =
     (if byteOffset + 1 \<le> length view then Inr (view[byteOffset := of_nat v])
      else Inl RangeError)"

definition setUint16 :: "byte list \<Rightarrow> nat \<Rightarrow> nat \<Rightarrow> bool \<Rightarrow> js_error + byte list" where
  "setUint16 view byteOffset v littleEndian =
     (if byteOffset + 2 \<le> length view then
        Inr (if littleEndian
             then view[byteOffset := of_nat v, byteOffset + 1 := of_nat (v div 256)]
             else view[byteOffset := of_nat (v div 256), byteOffset + 1 := of_nat v])
      else Inl RangeError)"

definition setUint32 :: "byte list \<Rightarrow> nat \<Rightarrow> nat \<Rightarrow> bool \<Rightarrow> js_error + byte list" where
  "setUint32 view byteOffset v littleEndian =
     (if byteOffset + 4 \<le> length view then
        Inr (if littleEndian
             then view[byteOffset := of_nat v, byteOffset + 1 := of_nat (v div 256),
                       byteOffset + 2 := of_nat (v div 65536),
                       byteOffset + 3 := of_nat (v div 16777216)]
             else view[byteOffset := of_nat (v div 16777216),
                       byteOffset + 1 := of_nat (v div 65536),
                       byteOffset + 2 := of_nat (v div 256), byteOffset + 3 := of_nat v])
      else Inl RangeError)"

fun writeString :: "byte list \<Rightarrow> nat \<Rightarrow> jsstring \<Rightarrow> js_error + byte list" where
  "writeString view offset [] = Inr view"
| "writeString view offset (c # cs) =
     and_then (setUint8 view offset c) (\<lambda>view. writeString view (offset + 1) cs)"

text \<open>
  \<^verbatim>\<open>new Uint8Array(buffer, headerLength).set(pcmData)\<close>: the source is copied to the
  buffer from the offset on.
\<close>

definition Uint8Array_set :: "byte list \<Rightarrow> nat \<Rightarrow> byte list \<Rightarrow> js_error + byte list" where
  "Uint8Array_set buffer byteOffset src =
     (if byteOffset + length src \<le> length buffer
      then Inr (take byteOffset buffer @ src @ drop (byteOffset + length src) buffer)
      else Inl RangeError)"

definition pcmToWav :: "byte list \<Rightarrow> nat \<Rightarrow> nat \<Rightarrow> js_error + byte list" where
  "pcmToWav pcmData rate numChannels =
     (let headerLength = 44;
          dataLength = length pcmData;
          buffer = replicate (headerLength + dataLength) 0
      in and_then (writeString buffer 0 (js ''RIFF'')) (\<lambda>view.
         and_then (setUint32 view 4 (36 + dataLength) True) (\<lambda>view.
         and_then (writeString view 8 (js ''WAVE'')) (\<lambda>view.
         and_then (writeString view 12 (js ''fmt '')) (\<lambda>view.
         and_then (setUint32 view 16 16 True) (\<lambda>view.
         and_then (setUint16 view 20 1 True) (\<lambda>view.
         and_then (setUint16 view 22 numChannels True) (\<lambda>view.
         and_then (setUint32 view 24 rate True) (\<lambda>view.
         and_then (setUint32 view 28 (rate * numChannels * 2) True) (\<lambda>view.
         and_then (setUint16 view 32 (numChannels * 2) True) (\<lambda>view.
         and_then (setUint16 view 34 16 True) (\<lambda>view.
         and_then (writeString view 36 (js ''data'')) (\<lambda>view.
         and_then (setUint32 view 40 dataLength True) (\<lambda>view.
         Uint8Array_set view headerLength pcmData))))))))))))))"

text \<open>Reading a little-endian field back, as \<^verbatim>\<open>DataView.getUint16\<close> and
  \<^verbatim>\<open>getUint32\<close> with \<^verbatim>\<open>littleEndian = true\<close> do.\<close>

definition getUint16_le :: "byte list \<Rightarrow> nat \<Rightarrow> nat" where
  "getUint16_le view byteOffset = unat (view ! byteOffset) + 256 * unat (view ! (byteOffset + 1))"

definition getUint32_le :: "byte list \<Rightarrow> nat \<Rightarrow> nat" where
  "getUint32_le view byteOffset =
     unat (view ! byteOffset) + 256 * unat (view ! (byteOffset + 1))
       + 65536 * unat (view ! (byteOffset + 2)) + 16777216 * unat (view ! (byteOffset + 3))"

section \<open>\<^verbatim>\<open>LiveSession\<close>: state and handlers\<close>

text \<open>
  The component's refs and React state are one record. Objects of the platform (source
  nodes, media tracks, the processor, the input source, the session promise) are
  identified by naturals; the \<open>k\<close>-th \<^verbatim>\<open>AudioBufferSourceNode\<close> created is node \<open>k\<close>
  and \<open>sourceNodes\<close> remembers its buffer. \<open>activeSources\<close> is the \<^verbatim>\<open>Set\<close> in
  insertion order. The calls made on platform objects are returned as a list of effects;
  \<open>SessionClose\<close> stands for \<^verbatim>\<open>session.close()\<close>, the call that ends the live session,
  which no handler of the component makes.
  Times are the values of \<^verbatim>\<open>ctx.currentTime\<close>, in seconds; times and durations are
  reals, so the scheduler's one sum \<^verbatim>\<open>scheduleTime + audioBuffer.duration\<close> is the
  exact sum here where the code has the double nearest to it. One run of a handler reads
  one value of the clock. The status line takes one of six texts: ready to connect,
  initialising audio, connecting, connected, interrupted, disconnected.
\<close>

datatype status_text =
  ReadyToConnect | InitialisingAudio | Connecting | Connected | Interrupted | Disconnected

datatype notice = ConnectedNotice | QuotaExceededNotice | LiveApiErrorNotice

datatype effect =
    SourceConnect nat
  | SourceStart nat real
  | SourceStop nat
  | TrackStop nat
  | ProcessorDisconnect nat
  | InputSourceDisconnect nat
  | SessionClose nat

record live_session =
  activeSources :: "nat list"
  nextStartTime :: real
  mediaStream :: "nat list option"
  processor :: "nat option"
  inputSource :: "nat option"
  sessionPromise :: "nat option"
  isRecording :: bool
  status :: status_text
  notification :: "notice option"
  sourceNodes :: "audio_buffer list"

definition initial_session :: live_session where
  "initial_session =
     \<lparr>activeSources = [], nextStartTime = 0, mediaStream = None, processor = None,
      inputSource = None, sessionPromise = None, isRecording = False,
      status = ReadyToConnect, notification = None, sourceNodes = []\<rparr>"

definition Set_add :: "'a \<Rightarrow> 'a list \<Rightarrow> 'a list" where
  "Set_add x xs = (if x \<in> set xs then xs else xs @ [x])"

definition Set_delete :: "'a \<Rightarrow> 'a list \<Rightarrow> 'a list" where
  "Set_delete x xs = removeAll x xs"

text \<open>
  \<^verbatim>\<open>cleanup\<close>: every active source is stopped (an exception of \<^verbatim>\<open>stop\<close> is
  swallowed) and the set cleared; the tracks of the media stream are stopped, the
  processor and the input source disconnected, each only when its ref is set, and the ref
  is cleared; the ref of the session promise is set to \<^verbatim>\<open>null\<close> and nothing is called
  on the session (the source's comment: no explicit close method on the promise, the
  component stops sending data); the state returns to not recording and ready to connect.
\<close>

definition cleanup :: "live_session \<Rightarrow> live_session \<times> effect list" where
  "cleanup s =
     (s\<lparr>activeSources := [], mediaStream := None, processor := None, inputSource := None,
        sessionPromise := None, isRecording := False, status := ReadyToConnect\<rparr>,
      map SourceStop (activeSources s)
        @ (case mediaStream s of None \<Rightarrow> [] | Some tracks \<Rightarrow> map TrackStop tracks)
        @ (case processor s of None \<Rightarrow> [] | Some p \<Rightarrow> [ProcessorDisconnect p])
        @ (case inputSource s of None \<Rightarrow> [] | Some i \<Rightarrow> [InputSourceDisconnect i]))"

text \<open>
  The two states the button tells apart. Idle is the state before a session and after
  \<^verbatim>\<open>cleanup\<close>; streaming is the state \<^verbatim>\<open>onopen\<close> leaves, with the microphone
  stream, the processor, the input source and the session promise in place.
\<close>

definition idle :: "live_session \<Rightarrow> bool" where
  "idle s \<longleftrightarrow>
     activeSources s = [] \<and> mediaStream s = None \<and> processor s = None
       \<and> inputSource s = None \<and> sessionPromise s = None \<and> \<not> isRecording s
       \<and> status s = ReadyToConnect"



text \<open>
  \<^verbatim>\<open>onmessage\<close>, first half: on \<^verbatim>\<open>serverContent.interrupted\<close> every active source is
  stopped, the set cleared and the cursor \<^verbatim>\<open>nextStartTime\<close> set to the clock.
\<close>

record server_message =
  interrupted :: bool
  inlineData :: "jsstring option"

definition interrupt :: "live_session \<Rightarrow> real \<Rightarrow> live_session \<times> effect list" where
  "interrupt s currentTime =
     (s\<lparr>status := Interrupted, activeSources := [], nextStartTime := currentTime\<rparr>,
      map SourceStop (activeSources s))"

text \<open>
  Second half: the inline data, when present and not the empty string, is decoded
  (\<^verbatim>\<open>base64ToUint8Array\<close>, then \<^verbatim>\<open>pcmToAudioBuffer(pcmData, ctx, 24000)\<close>), a new
  source node is connected and started at \<^verbatim>\<open>Math.max(nextStartTime, ctx.currentTime)\<close>,
  the cursor moves to that time plus the buffer's duration and the node joins the active
  set. Nothing in the handler catches an exception of the decoding: it leaves the handler
  with the state reached so far, the third component of the result.
\<close>

definition schedulePlayback :: "live_session \<Rightarrow> audio_buffer \<Rightarrow> real \<Rightarrow> live_session \<times> effect list" where
  "schedulePlayback s audioBuffer currentTime =
     (let source = length (sourceNodes s);
          scheduleTime = max (nextStartTime s) currentTime
      in (s\<lparr>sourceNodes := sourceNodes s @ [audioBuffer],
            nextStartTime := scheduleTime + duration audioBuffer,
            activeSources := Set_add source (activeSources s)\<rparr>,
          [SourceConnect source, SourceStart source scheduleTime]))"

definition onmessage ::
  "live_session \<Rightarrow> server_message \<Rightarrow> real \<Rightarrow> live_session \<times> effect list \<times> js_error option" where
  "onmessage s message currentTime =
     (let (s1, e1) = (if interrupted message then interrupt s currentTime else (s, [])) in
      case inlineData message of
        None \<Rightarrow> (s1, e1, None)
      | Some b64Data \<Rightarrow>
          if b64Data = [] then (s1, e1, None)
          else case base64ToUint8Array b64Data of
                 Inl err \<Rightarrow> (s1, e1, Some err)
               | Inr pcmData \<Rightarrow>
                   (case pcmToAudioBuffer pcmData 24000 1 of
                      Inl err \<Rightarrow> (s1, e1, Some err)
                    | Inr audioBuffer \<Rightarrow>
                        (let (s2, e2) = schedulePlayback s1 audioBuffer currentTime
                         in (s2, e1 @ e2, None))))"

text \<open>\<^verbatim>\<open>source.onended\<close>: the node leaves the active set.\<close>

definition onended :: "live_session \<Rightarrow> nat \<Rightarrow> live_session" where
  "onended s source = s\<lparr>activeSources := Set_delete source (activeSources s)\<rparr>"

text \<open>The start times of the \<^verbatim>\<open>source.start\<close> calls among the effects, in order.\<close>

fun startTimes :: "effect list \<Rightarrow> real list" where
  "startTimes [] = []"
| "startTimes (SourceStart n t # es) = t # startTimes es"
| "startTimes (e # es) = startTimes es"

section \<open>Error handlers\<close>

text \<open>
  \<^verbatim>\<open>errorMessage = e.message || e.toString()\<close>, then a test with
  \<^verbatim>\<open>String.prototype.includes\<close>. \<^verbatim>\<open>onerror\<close> of the live session and the \<^verbatim>\<open>catch\<close> of
  the text-to-speech request test for three texts; the \<^verbatim>\<open>catch\<close> around the start of
  the session tests for two.
\<close>

record error_object =
  message :: "jsstring option"
  toString :: jsstring

definition errorMessage :: "error_object \<Rightarrow> jsstring" where
  "errorMessage e =
     (case message e of None \<Rightarrow> toString e | Some m \<Rightarrow> if m = [] then toString e else m)"

fun js_includes :: "'a list \<Rightarrow> 'a list \<Rightarrow> bool" where
  "js_includes [] needle = (needle = [])"
| "js_includes (c # cs) needle =
     (take (length needle) (c # cs) = needle \<or> js_includes cs needle)"

definition is_quota_error :: "jsstring \<Rightarrow> bool" where
  "is_quota_error msg \<longleftrightarrow>
     js_includes msg (js ''429'') \<or> js_includes msg (js ''quota'')
       \<or> js_includes msg (js ''Resource has been exhausted'')"

text \<open>\<^verbatim>\<open>onclose\<close> sets the status to disconnected and runs \<^verbatim>\<open>cleanup\<close>.\<close>

definition onclose :: "live_session \<Rightarrow> live_session \<times> effect list" where
  "onclose s = cleanup (s\<lparr>status := Disconnected\<rparr>)"

definition onerror :: "live_session \<Rightarrow> error_object \<Rightarrow> live_session \<times> effect list" where
  "onerror s e =
     cleanup (s\<lparr>notification :=
                  Some (if is_quota_error (errorMessage e) then QuotaExceededNotice
                        else LiveApiErrorNotice)\<rparr>)"

definition startSession_is_quota_error :: "jsstring \<Rightarrow> bool" where
  "startSession_is_quota_error msg \<longleftrightarrow>
     js_includes msg (js ''429'') \<or> js_includes msg (js ''quota'')"

datatype tts_notice = TtsQuotaExceededNotice | TtsErrorNotice jsstring

definition tts_catch :: "error_object \<Rightarrow> tts_notice" where
  "tts_catch e =
     (if is_quota_error (errorMessage e) then TtsQuotaExceededNotice
      else TtsErrorNotice (errorMessage e))"

section \<open>Notions used in the statements\<close>

text \<open>
  The samples of a \<^verbatim>\<open>Float32Array\<close> are 32-bit floats. A real \<open>m / 2^k\<close> with
  \<open>\<bar>m\<bar> < 2^24\<close> and \<open>k \<le> 149\<close> is the value of one (a sufficient condition, which
  covers the sample values used as examples below).
\<close>

definition float32_representable :: "real \<Rightarrow> bool" where
  "float32_representable x \<longleftrightarrow>
     (\<exists>m k. \<bar>m\<bar> < 2 ^ 24 \<and> k \<le> (149 :: nat) \<and> x = real_of_int m / 2 ^ k)"

text \<open>
  For a finite sample \<open>x\<close>, \<open>clamp_scale x\<close> is the number that \<^verbatim>\<open>float32ToB64PCM\<close>
  stores into the \<^verbatim>\<open>Int16Array\<close>: the clamped sample times \<open>32768\<close> when negative,
  times \<open>32767\<close> otherwise.
\<close>

definition clamp_scale :: "real \<Rightarrow> real" where
  "clamp_scale x = (let s = max (- 1) (min 1 x) in if s < 0 then s * 32768 else s * 32767)"

text \<open>
  The round trip of a sample frame through the codec at one channel:
  \<^verbatim>\<open>pcmToAudioBuffer(base64ToUint8Array(float32ToB64PCM(samples)), ctx, 24000)\<close>, the
  call every caller makes; and the value that comes back for a finite sample \<open>s\<close>.
\<close>

definition decode_encode :: "number list \<Rightarrow> js_error + audio_buffer" where
  "decode_encode samples =
     and_then (float32ToB64PCM samples) (\<lambda>b64.
     and_then (base64ToUint8Array b64) (\<lambda>pcm. pcmToAudioBuffer pcm 24000 1))"

definition recovered :: "real \<Rightarrow> real" where
  "recovered s = real_of_int (trunc_zero (clamp_scale s)) / 32768"

text \<open>
  The specification's wording of the conversion of one sample, for comparison with the
  code: clamp, scale, then round to the nearest integer.
\<close>

definition spec_encode_sample :: "real \<Rightarrow> int" where
  "spec_encode_sample x = round (clamp_scale x)"

text \<open>
  The bytes of a little-endian 16-bit and 32-bit field, and the 44 bytes that
  \<^verbatim>\<open>pcmToWav\<close> writes in front of the data, in the order of its writes.
\<close>

definition le16_bytes :: "nat \<Rightarrow> byte list" where
  "le16_bytes v = [of_nat v, of_nat (v div 256)]"

definition le32_bytes :: "nat \<Rightarrow> byte list" where
  "le32_bytes v = [of_nat v, of_nat (v div 256), of_nat (v div 65536), of_nat (v div 16777216)]"

definition wav_header :: "nat \<Rightarrow> nat \<Rightarrow> nat \<Rightarrow> byte list" where
  "wav_header dataLength rate numChannels =
     map of_nat (js ''RIFF'') @ le32_bytes (36 + dataLength) @ map of_nat (js ''WAVE'')
       @ map of_nat (js ''fmt '') @ le32_bytes 16 @ le16_bytes 1 @ le16_bytes numChannels
       @ le32_bytes rate @ le32_bytes (rate * numChannels * 2) @ le16_bytes (numChannels * 2)
       @ le16_bytes 16 @ map of_nat (js ''data'') @ le32_bytes dataLength"

text \<open>
  A text contains another when the other occurs in it as a contiguous run of code units.
\<close>

definition contains :: "'a list \<Rightarrow> 'a list \<Rightarrow> bool" where
  "contains hay needle \<longleftrightarrow> (\<exists>p q. hay = p @ needle @ q)"

text \<open>
  What one teardown of a state owes the platform: a \<^verbatim>\<open>stop\<close> for every active source
  and for every track of the media stream, a \<^verbatim>\<open>disconnect\<close> for the processor and for
  the input source, each where present.
\<close>

definition releases :: "live_session \<Rightarrow> effect list" where
  "releases s =
     map SourceStop (activeSources s)
       @ map TrackStop (case mediaStream s of None \<Rightarrow> [] | Some tracks \<Rightarrow> tracks)
       @ map ProcessorDisconnect (case processor s of None \<Rightarrow> [] | Some p \<Rightarrow> [p])
       @ map InputSourceDisconnect (case inputSource s of None \<Rightarrow> [] | Some i \<Rightarrow> [i])"



section \<open>Properties of the base64 framing\<close>

lemma length_b64_alphabet: "length b64_alphabet = 64"
  by (simp add: b64_alphabet_def js_def)

lemma distinct_b64_alphabet: "distinct b64_alphabet"
  by (simp add: b64_alphabet_def js_def)

lemma index_of_nth: "distinct xs \<Longrightarrow> i < length xs \<Longrightarrow> index_of (xs ! i) xs = Some i"
proof (induction xs arbitrary: i)
  case Nil
  then show ?case by simp
next
  case (Cons y ys)
  show ?case
  proof (cases i)
    case 0
    then show ?thesis by simp
  next
    case (Suc j)
    with Cons.prems have "j < length ys" "distinct ys" "ys ! j \<noteq> y"
      by auto
    with Cons.IH [of j] Suc show ?thesis by simp
  qed
qed

lemma b64_index_char: "i < 64 \<Longrightarrow> b64_index (b64_alphabet ! i) = Some i"
  unfolding b64_index_def
  by (rule index_of_nth [OF distinct_b64_alphabet]) (simp add: length_b64_alphabet)

lemma those_map_Some: "those (map Some xs) = Some xs"
  by (induction xs) simp_all

lemma those_b64_index:
  "list_all (\<lambda>i. i < 64) sx \<Longrightarrow> those (map b64_index (map (\<lambda>i. b64_alphabet ! i) sx)) = Some sx"
  by (induction sx) (simp_all add: b64_index_char)

lemma sextets_bound: "list_all (\<lambda>b. b < 256) bs \<Longrightarrow> list_all (\<lambda>i. i < 64) (bytes_to_sextets bs)"
  by (induction bs rule: bytes_to_sextets.induct) auto

lemma sextets_to_bytes_inverse:
  "list_all (\<lambda>b. b < 256) bs \<Longrightarrow> sextets_to_bytes (bytes_to_sextets bs) = bs"
  by (induction bs rule: bytes_to_sextets.induct) auto

lemma length_sextets: "length (bytes_to_sextets bs) = (length bs div 3) * 4 + (if length bs mod 3 = 0 then 0 else length bs mod 3 + 1)"
  by (induction bs rule: bytes_to_sextets.induct) auto

lemma b64_char_not_pad: "i < 64 \<Longrightarrow> b64_alphabet ! i \<noteq> 61"
proof -
  have "61 \<notin> set b64_alphabet"  by (simp add: b64_alphabet_def js_def)
  then show "i < 64 \<Longrightarrow> b64_alphabet ! i \<noteq> 61"
    by (metis length_b64_alphabet nth_mem)
qed

lemma b64_char_not_ws: "i < 64 \<Longrightarrow> \<not> ascii_whitespace (b64_alphabet ! i)"
proof -
  have "list_all (\<lambda>c. \<not> ascii_whitespace c) b64_alphabet"
    by (simp add: b64_alphabet_def js_def ascii_whitespace_def)
  then show "i < 64 \<Longrightarrow> \<not> ascii_whitespace (b64_alphabet ! i)"
    by (simp add: list_all_length length_b64_alphabet)
qed

lemma b64_chars_props:
  assumes "list_all (\<lambda>b. b < 256) bs"
  shows "list_all (\<lambda>c. c \<noteq> 61 \<and> \<not> ascii_whitespace c) (b64_chars bs)"
proof -
  have "list_all (\<lambda>i. i < 64) (bytes_to_sextets bs)"
    using assms by (rule sextets_bound)
  then show ?thesis
    unfolding b64_chars_def
    by (induction "bytes_to_sextets bs") (simp_all add: list_all_iff b64_char_not_pad b64_char_not_ws)
qed

lemma filter_id_all: "list_all P xs \<Longrightarrow> filter P xs = xs"
  by (induction xs) simp_all

lemma strip_padding_encode:
  assumes "list_all (\<lambda>c. c \<noteq> 61) cs"
    and "(length cs + k) mod 4 = 0" and "k \<le> 2"
  shows "strip_padding (cs @ replicate k 61) = cs"
proof -
  have nl: "cs \<noteq> [] \<Longrightarrow> last cs \<noteq> 61"
    using assms(1) by (induction cs) (auto split: if_splits)
  consider "k = 0" | "k = 1" | "k = 2" using assms(3) by linarith
  then show ?thesis
  proof cases
    case 1
    then show ?thesis using nl by (auto simp: strip_padding_def)
  next
    case 2
    then show ?thesis using nl assms(2) by (auto simp: strip_padding_def Let_def)
  next
    case 3
    then have "replicate k (61::nat) = [61, 61]" by (simp add: numeral_2_eq_2)
    then show ?thesis using nl assms(2) 3
      by (auto simp: strip_padding_def Let_def butlast_append)
  qed
qed

lemma length_encode_mod4:
  "(length (bytes_to_sextets bs) + (3 - length bs mod 3) mod 3) mod 4 = 0"
  by (induction bs rule: bytes_to_sextets.induct) simp_all

lemma length_sextets_mod4: "length (bytes_to_sextets bs) mod 4 \<noteq> 1"
  by (induction bs rule: bytes_to_sextets.induct) simp_all

lemma atob_base64_encode:
  assumes "list_all (\<lambda>b. b < 256) bs"
  shows "atob (base64_encode bs) = Inr bs"
proof -
  let ?k = "(3 - length bs mod 3) mod 3"
  let ?cs = "b64_chars bs"
  have enc: "base64_encode bs = ?cs @ replicate ?k 61"
    by (simp add: base64_encode_def b64_chars_def)
  have props: "list_all (\<lambda>c. c \<noteq> 61 \<and> \<not> ascii_whitespace c) ?cs"
    using assms by (rule b64_chars_props)
  have "\<not> ascii_whitespace 61"
    by (simp add: ascii_whitespace_def)
  then have "list_all (\<lambda>c. \<not> ascii_whitespace c) (?cs @ replicate ?k 61)"
    using props by (auto simp: list_all_iff)
  then have nows: "filter (\<lambda>c. \<not> ascii_whitespace c) (?cs @ replicate ?k 61) = ?cs @ replicate ?k 61"
    by (rule filter_id_all)
  have k2: "?k \<le> 2" by linarith
  have l4: "(length ?cs + ?k) mod 4 = 0"
    using length_encode_mod4 [of bs] by (simp add: b64_chars_def)
  have nopad: "list_all (\<lambda>c. c \<noteq> 61) ?cs"
    using props by (simp add: list_all_iff)
  have strip: "strip_padding (?cs @ replicate ?k 61) = ?cs"
    using nopad l4 k2 by (rule strip_padding_encode)
  have n1: "length ?cs mod 4 \<noteq> 1"
    using length_sextets_mod4 [of bs] by (simp add: b64_chars_def)
  have ix: "those (map b64_index ?cs) = Some (bytes_to_sextets bs)"
    unfolding b64_chars_def using sextets_bound [OF assms] by (rule those_b64_index)
  have "atob (?cs @ replicate ?k 61) = Inr (sextets_to_bytes (bytes_to_sextets bs))"
    unfolding atob_def nows strip Let_def using n1 by (simp add: ix)
  then show ?thesis
    by (simp add: enc sextets_to_bytes_inverse [OF assms])
qed

lemma unat_bytes_bound: "list_all (\<lambda>b. b < 256) (map unat (bytes :: byte list))"
proof -
  have "unat b < 256" for b :: byte
    using unsigned_less [of b, where 'a = nat] by simp
  then show ?thesis by (simp add: list_all_iff)
qed

lemma btoa_bytes: "btoa (map unat (bytes :: byte list)) = Inr (base64_encode (map unat bytes))"
proof -
  have "\<not> list_ex (\<lambda>c. 255 < c) (map unat bytes)"
    using unat_bytes_bound [of bytes] by (auto simp: list_all_iff list_ex_iff)
  then show ?thesis by (simp add: btoa_def)
qed

lemma uint8ArrayToBase64_eq: "uint8ArrayToBase64 b = Inr (base64_encode (map unat b))"
  by (simp add: uint8ArrayToBase64_def btoa_bytes)

lemma base64ToUint8Array_encode: "base64ToUint8Array (base64_encode (map unat b)) = Inr b"
proof -
  have "map (\<lambda>x. (of_nat (unat x) :: byte)) b = b"
    by (induction b) simp_all
  then show ?thesis
    by (simp add: base64ToUint8Array_def atob_base64_encode [OF unat_bytes_bound] comp_def)
qed

text \<open>
  Claim C10. Decoding the base64 encoding of a byte array gives the array back: for every
  byte array \<open>b\<close>, \<^verbatim>\<open>uint8ArrayToBase64(b)\<close> returns a string (it does not raise), and
  \<^verbatim>\<open>base64ToUint8Array\<close> of that string returns \<open>b\<close>. The framing of every outbound and
  inbound PCM chunk loses nothing.
\<close>

theorem base64_roundtrip:
  "uint8ArrayToBase64 b = Inr (base64_encode (map unat b)) \<and>
   base64ToUint8Array (base64_encode (map unat b)) = Inr b"
  by (simp add: uint8ArrayToBase64_eq base64ToUint8Array_encode)

theorem base64_roundtrip_witness:
  "uint8ArrayToBase64 [1, 2, 255, 7] = Inr (js ''AQL/Bw=='') \<and>
   base64ToUint8Array (js ''AQL/Bw=='') = Inr [1, 2, 255, 7]"
proof -
  have "base64_encode (map unat [1, 2, 255, 7 :: byte]) = js ''AQL/Bw==''"
    by code_simp
  then show ?thesis
    using base64_roundtrip [of "[1, 2, 255, 7]"] by simp
qed

section \<open>Properties of the PCM codec\<close>

lemma float32_representableI:
  "\<bar>m\<bar> < 2 ^ 24 \<Longrightarrow> k \<le> 149 \<Longrightarrow> float32_representable (real_of_int m / 2 ^ k)"
  unfolding float32_representable_def by blast

lemma length_float32ToPCM: "length (float32ToPCM xs) = 2 * length xs"
  by (induction xs) (simp_all add: float32ToPCM_def int16_bytes_def)

lemma word_cat_int16_bytes: "word_cat (ucast (drop_bit 8 w) :: byte) (ucast w :: byte) = (w :: int16)"
  by (rule bit_word_eqI) (auto simp add: bit_simps)

lemma Int16Array_view_float32ToPCM: "Int16Array_view (float32ToPCM xs) = map float32ToInt16 xs"
  by (induction xs) (simp_all add: float32ToPCM_def int16_bytes_def word_cat_int16_bytes)

lemma trunc_zero_bounds:
  fixes lo hi :: int and x :: real
  assumes "real_of_int lo \<le> x" "x \<le> real_of_int hi" "lo \<le> 0" "0 \<le> hi"
  shows "lo \<le> trunc_zero x \<and> trunc_zero x \<le> hi"
  using assms unfolding trunc_zero_def
  by (auto simp: le_floor_iff ceiling_le_iff floor_le_iff le_ceiling_iff)

lemma clamp_scale_range: "- 32768 \<le> clamp_scale x \<and> clamp_scale x \<le> 32767"
  by (auto simp: clamp_scale_def Let_def max_def min_def)

lemma float32ToInt16_Num: "float32ToInt16 (Num x) = word_of_int (trunc_zero (clamp_scale x))"
  by (auto simp add: float32ToInt16_def clamp_scale_def Let_def max_def min_def)

lemma trunc_zero_clamp_scale_range: "- 32768 \<le> trunc_zero (clamp_scale x) \<and> trunc_zero (clamp_scale x) \<le> 32767"
proof -
  show ?thesis
    using clamp_scale_range [of x] by (intro trunc_zero_bounds) simp_all
qed

lemma sint_float32ToInt16_Num: "sint (float32ToInt16 (Num x)) = trunc_zero (clamp_scale x)"
proof -
  have "sint (word_of_int (trunc_zero (clamp_scale x)) :: int16) = trunc_zero (clamp_scale x)"
    using trunc_zero_clamp_scale_range [of x]
    by (simp add: signed_of_int signed_take_bit_int_eq_self)
  then show ?thesis by (simp add: float32ToInt16_Num)
qed

lemma map_nth_upt: "map (\<lambda>i. f (xs ! i)) [0..<length xs] = map f xs"
  by (rule nth_equalityI) simp_all

lemma pcmToAudioBuffer_mono:
  assumes "2 \<le> length data" and "0 < rate"
  shows "pcmToAudioBuffer data rate 1 =
     Inr \<lparr>numberOfChannels = 1, frameCount = length (Int16Array_view data), sampleRate = rate,
          channelData = [map (\<lambda>w. real_of_int (sint w) / 32768) (Int16Array_view data)]\<rparr>"
proof -
  obtain lo hi rest where "data = lo # hi # rest"
    using assms(1) by (cases data; cases "tl data") auto
  then have "length (Int16Array_view data) \<noteq> 0" by simp
  moreover have "map (\<lambda>i. real_of_int (sint (Int16Array_view data ! i)) / 32768)
                   [0..<length (Int16Array_view data)]
                 = map (\<lambda>w. real_of_int (sint w) / 32768) (Int16Array_view data)"
    by (rule map_nth_upt)
  ultimately show ?thesis
    using assms(2) by (simp add: pcmToAudioBuffer_def createBuffer_def Let_def)
qed

lemma signed_float32ToInt16_Num:
  "(signed (float32ToInt16 (Num x)) :: real) = real_of_int (trunc_zero (clamp_scale x))"
proof -
  have "(signed (float32ToInt16 (Num x)) :: real) = real_of_int (sint (float32ToInt16 (Num x)))"
    by simp
  then show ?thesis
    by (simp only: sint_float32ToInt16_Num)
qed

lemma decode_encode_eq:
  assumes "xs \<noteq> []"
  shows "decode_encode xs =
     Inr \<lparr>numberOfChannels = 1, frameCount = length xs, sampleRate = 24000,
          channelData = [map (\<lambda>x. real_of_int (sint (float32ToInt16 x)) / 32768) xs]\<rparr>"
proof -
  have "2 \<le> length (float32ToPCM xs)"
    using assms(1) by (cases xs) (simp_all add: length_float32ToPCM)
  then have "pcmToAudioBuffer (float32ToPCM xs) 24000 1 =
     Inr \<lparr>numberOfChannels = 1, frameCount = length xs, sampleRate = 24000,
          channelData = [map (\<lambda>x. real_of_int (sint (float32ToInt16 x)) / 32768) xs]\<rparr>"
    using pcmToAudioBuffer_mono [of "float32ToPCM xs" 24000]
    by (simp add: Int16Array_view_float32ToPCM comp_def)
  then show ?thesis
    by (simp add: decode_encode_def float32ToB64PCM_def uint8ArrayToBase64_eq
        base64ToUint8Array_encode)
qed

lemma recovered_nonneg:
  assumes "0 \<le> s" "s \<le> 1"
  shows "0 \<le> s - recovered s \<and> s - recovered s < 2 / 32768"
proof -
  let ?y = "s * 32767"
  have cs: "clamp_scale s = ?y"
    using assms by (simp add: clamp_scale_def Let_def max_def min_def)
  have tz: "trunc_zero ?y = \<lfloor>?y\<rfloor>"
    using assms by (simp add: trunc_zero_def)
  define z where "z = real_of_int \<lfloor>?y\<rfloor>"
  have "z \<le> ?y" "?y < z + 1"
    unfolding z_def by linarith+
  moreover have "recovered s = z / 32768"
    by (simp add: recovered_def cs tz z_def)
  ultimately show ?thesis
    using assms by (simp add: field_simps)
qed

lemma recovered_neg:
  assumes "- 1 \<le> s" "s < 0"
  shows "0 \<le> recovered s - s \<and> recovered s - s < 1 / 32768"
proof -
  let ?y = "s * 32768"
  have cs: "clamp_scale s = ?y"
    using assms by (simp add: clamp_scale_def Let_def max_def min_def)
  have tz: "trunc_zero ?y = \<lceil>?y\<rceil>"
    using assms by (simp add: trunc_zero_def)
  define z where "z = real_of_int \<lceil>?y\<rceil>"
  have "?y \<le> z" "z < ?y + 1"
    unfolding z_def by linarith+
  moreover have "recovered s = z / 32768"
    by (simp add: recovered_def cs tz z_def)
  ultimately show ?thesis
    using assms by (simp add: field_simps)
qed

text \<open>
  Claim C3, as amended. For every sample \<open>s\<close> in \<open>[-1, 1]\<close>, decoding the encoding of
  the one-sample frame \<open>[s]\<close> returns one channel with the one value \<open>recovered s\<close>, which
  lies within \<open>2/32768\<close> of \<open>s\<close> (strictly), and within \<open>1/32768\<close> when \<open>s \<le> 0\<close>.
  The store into the \<^verbatim>\<open>Int16Array\<close> truncates, and a non-negative sample is scaled by
  \<open>32767\<close> but divided by \<open>32768\<close> on the way back.
\<close>

theorem decode_encode_within:
  assumes "- 1 \<le> s" and "s \<le> 1"
  shows "map_sum id channelData (decode_encode [Num s]) = Inr [[recovered s]]
         \<and> \<bar>recovered s - s\<bar> < 2 / 32768
         \<and> (s \<le> 0 \<longrightarrow> \<bar>recovered s - s\<bar> < 1 / 32768)"
proof -
  have "decode_encode [Num s] =
     Inr \<lparr>numberOfChannels = 1, frameCount = 1, sampleRate = 24000,
          channelData = [[recovered s]]\<rparr>"
    by (simp add: decode_encode_eq signed_float32ToInt16_Num recovered_def)
  moreover have "\<bar>recovered s - s\<bar> < 2 / 32768"
    using recovered_nonneg [of s] recovered_neg [of s] assms(1,2) by (cases "0 \<le> s") auto
  moreover have "\<bar>recovered s - s\<bar> < 1 / 32768" if "s \<le> 0"
  proof (cases "s = 0")
    case True
    then show ?thesis by (simp add: recovered_def clamp_scale_def trunc_zero_def)
  next
    case False
    then show ?thesis using recovered_neg [of s] assms(1) that by auto
  qed
  ultimately show ?thesis by simp
qed

theorem decode_encode_within_witness:
  "float32_representable (5 / 8) \<and> float32_representable (- 32769 / 131072)
   \<and> map_sum id channelData (decode_encode [Num (5 / 8)]) = Inr [[20479 / 32768]]
   \<and> \<bar>20479 / 32768 - (5 / 8 :: real)\<bar> < 2 / 32768
   \<and> map_sum id channelData (decode_encode [Num (- 32769 / 131072)]) = Inr [[- 8192 / 32768]]
   \<and> \<bar>- 8192 / 32768 - (- 32769 / 131072 :: real)\<bar> < 1 / 32768"
proof -
  have "float32_representable (real_of_int 5 / 2 ^ 3)"
    "float32_representable (real_of_int (- 32769) / 2 ^ 17)"
    by (rule float32_representableI; simp)+
  then have "float32_representable (5 / 8)" "float32_representable (- 32769 / 131072)"
    by simp_all
  moreover have "recovered (5 / 8) = 20479 / 32768" "recovered (- 32769 / 131072) = - 8192 / 32768"
    by (simp_all add: recovered_def clamp_scale_def trunc_zero_def)
  ultimately show ?thesis
    using decode_encode_within [of "5 / 8"] decode_encode_within [of "- 32769 / 131072"]
    by simp
qed

text \<open>
  The bound \<open>1/32768\<close> of claim C3 fails at \<open>s = 65535/65536\<close>, a 32-bit float: the
  sample is stored as \<open>32766\<close> and comes back as \<open>32766/32768\<close>, at distance
  \<open>1.5/32768\<close>.
\<close>

theorem decode_encode_counterexample:
  "float32_representable (65535 / 65536)
   \<and> map_sum id channelData (decode_encode [Num (65535 / 65536)]) = Inr [[32766 / 32768]]
   \<and> \<not> \<bar>32766 / 32768 - (65535 / 65536 :: real)\<bar> \<le> 1 / 32768"
proof -
  have "float32_representable (real_of_int 65535 / 2 ^ 16)"
    by (rule float32_representableI; simp)
  then have "float32_representable (65535 / 65536)"
    by simp
  moreover have "recovered (65535 / 65536) = 32766 / 32768"
    by (simp add: recovered_def clamp_scale_def trunc_zero_def)
  moreover have "decode_encode [Num (65535 / 65536)] =
     Inr \<lparr>numberOfChannels = 1, frameCount = 1, sampleRate = 24000,
          channelData = [[recovered (65535 / 65536)]]\<rparr>"
    by (simp add: decode_encode_eq signed_float32ToInt16_Num recovered_def)
  ultimately show ?thesis by simp
qed

lemma unat_int16_bytes:
  "unat (ucast w :: byte) + 256 * unat (ucast (drop_bit 8 w) :: byte) = unat (w :: int16)"
proof -
  have "unat w < 65536"
    using unsigned_less [of w, where 'a = nat] by simp
  then have "unat w div 256 < 256" by simp
  then show ?thesis
    by (simp add: unsigned_ucast_eq take_bit_eq_mod unat_drop_bit_eq drop_bit_eq_div
        unat_div_distrib)
qed

lemma nth_float32ToPCM:
  "i < length xs \<Longrightarrow>
     float32ToPCM xs ! (2 * i) = ucast (float32ToInt16 (xs ! i))
     \<and> float32ToPCM xs ! Suc (2 * i) = ucast (drop_bit 8 (float32ToInt16 (xs ! i)))"
proof (induction xs arbitrary: i)
  case Nil
  then show ?case by simp
next
  case (Cons x xs)
  show ?case
  proof (cases i)
    case 0
    then show ?thesis by (simp add: float32ToPCM_def int16_bytes_def)
  next
    case (Suc j)
    with Cons.prems have "j < length xs" by simp
    from Cons.IH [OF this] Suc show ?thesis
      by (simp add: float32ToPCM_def int16_bytes_def)
  qed
qed

lemma getUint16_le_float32ToPCM:
  "i < length xs \<Longrightarrow> getUint16_le (float32ToPCM xs) (2 * i) = unat (float32ToInt16 (xs ! i))"
  by (simp add: getUint16_le_def nth_float32ToPCM unat_int16_bytes)

lemma float32ToInt16_clamp:
  "float32ToInt16 (Math_max (- 1) (Math_min 1 x)) = float32ToInt16 x"
  by (cases x) (simp_all add: float32ToInt16_def Let_def)

text \<open>
  Claim C4, as amended. \<^verbatim>\<open>float32ToB64PCM\<close> clamps first: the encodings of \<open>2.0\<close> and
  \<open>1.0\<close> agree, those of \<open>-5.0\<close> and \<open>-1.0\<close> agree, and the 16-bit value of any sample
  is that of its clamped value. A finite sample is scaled by \<open>32768\<close> when negative and
  by \<open>32767\<close> otherwise, and the scaled value is truncated towards zero (not rounded to
  the nearest integer); the result fits 16 bits without wrapping. The \<open>i\<close>-th sample
  occupies bytes \<open>2i\<close> and \<open>2i + 1\<close> of the chunk, low byte first.
\<close>

theorem float32ToB64PCM_encoding:
  "float32ToB64PCM [Num 2] = float32ToB64PCM [Num 1]
   \<and> float32ToB64PCM [Num (- 5)] = float32ToB64PCM [Num (- 1)]
   \<and> float32ToInt16 x = float32ToInt16 (Math_max (- 1) (Math_min 1 x))
   \<and> sint (float32ToInt16 (Num r)) =
        trunc_zero (let s = max (- 1) (min 1 r) in if s < 0 then s * 32768 else s * 32767)
   \<and> (i < length xs \<longrightarrow>
        getUint16_le (float32ToPCM xs) (2 * i) = unat (float32ToInt16 (xs ! i)))"
proof -
  have "float32ToInt16 (Num 2) = float32ToInt16 (Num 1)"
    "float32ToInt16 (Num (- 5)) = float32ToInt16 (Num (- 1))"
    by (simp_all add: float32ToInt16_def)
  then have "float32ToB64PCM [Num 2] = float32ToB64PCM [Num 1]"
    "float32ToB64PCM [Num (- 5)] = float32ToB64PCM [Num (- 1)]"
    by (simp_all add: float32ToB64PCM_def float32ToPCM_def)
  moreover have "sint (float32ToInt16 (Num r)) =
        trunc_zero (let s = max (- 1) (min 1 r) in if s < 0 then s * 32768 else s * 32767)"
    using sint_float32ToInt16_Num [of r] by (simp only: clamp_scale_def)
  ultimately show ?thesis
    by (simp add: float32ToInt16_clamp getUint16_le_float32ToPCM)
qed

theorem float32ToB64PCM_encoding_witness:
  "float32_representable (- 32769 / 131072)
   \<and> sint (float32ToInt16 (Num (- 32769 / 131072))) = - 8192
   \<and> (0 < length [Num (- 32769 / 131072)] \<and>
        getUint16_le (float32ToPCM [Num (- 32769 / 131072)]) 0 = 57344)"
proof -
  have "float32_representable (real_of_int (- 32769) / 2 ^ 17)"
    by (rule float32_representableI; simp)
  then have "float32_representable (- 32769 / 131072)"
    by simp
  moreover have "trunc_zero (let s = max (- 1) (min 1 (- 32769 / 131072)) in
      if s < 0 then s * 32768 else s * 32767) = - 8192"
    by (simp add: trunc_zero_def)
  moreover have "unat (float32ToInt16 (Num (- 32769 / 131072))) = 57344"
    by (simp add: float32ToInt16_def trunc_zero_def)
  ultimately show ?thesis
    using float32ToB64PCM_encoding [of _ "- 32769 / 131072" 0 "[Num (- 32769 / 131072)]"]
    by simp
qed

text \<open>
  Claim C4 says the scaled value is rounded to the nearest integer. At \<open>x = 0.25\<close> the
  scaled value is \<open>8191.75\<close>: the code stores \<open>8191\<close> (bytes \<open>FF 1F\<close>), rounding
  would give \<open>8192\<close>.
\<close>

theorem float32ToB64PCM_rounding_counterexample:
  "float32_representable (1 / 4)
   \<and> sint (float32ToInt16 (Num (1 / 4))) = 8191 \<and> spec_encode_sample (1 / 4) = 8192
   \<and> float32ToPCM [Num (1 / 4)] = [255, 31]"
proof -
  have "float32_representable (real_of_int 1 / 2 ^ 2)"
    by (rule float32_representableI; simp)
  then have "float32_representable (1 / 4)"
    by simp
  then show ?thesis
    by (simp add: sint_float32ToInt16_Num clamp_scale_def trunc_zero_def spec_encode_sample_def
        round_def float32ToPCM_def int16_bytes_def float32ToInt16_Num)
qed

text \<open>
  Claim C9. For a frame of \<open>n\<close> samples the PCM chunk that \<^verbatim>\<open>float32ToB64PCM\<close> encodes
  has exactly \<open>2n\<close> bytes, an even number, also for \<open>n = 0\<close>; the function returns the
  base64 text of that chunk, and decoding the text gives the chunk back.
\<close>

theorem pcm_chunk_length:
  "length (float32ToPCM xs) = 2 * length xs
   \<and> even (length (float32ToPCM xs))
   \<and> float32ToB64PCM xs = Inr (base64_encode (map unat (float32ToPCM xs)))
   \<and> base64ToUint8Array (base64_encode (map unat (float32ToPCM xs))) = Inr (float32ToPCM xs)"
  by (simp add: length_float32ToPCM float32ToB64PCM_def uint8ArrayToBase64_eq
      base64ToUint8Array_encode)

theorem pcm_chunk_length_witness:
  "length (float32ToPCM []) = 0 \<and> length (float32ToPCM [Num (1 / 4), NaN, PosInf]) = 6"
  using pcm_chunk_length [of "[]"] pcm_chunk_length [of "[Num (1 / 4), NaN, PosInf]"] by simp

section \<open>Properties of the WAV container\<close>

lemma zeros44: "replicate 44 (0::byte) = [0,0,0,0,0,0,0,0,0,0,0,0,0,0,0,0,0,0,0,0,0,0,0,0,0,0,0,0,0,0,0,0,0,0,0,0,0,0,0,0,0,0,0,0]"
  by code_simp

lemma pcmToWav_eq:
  "pcmToWav pcmData rate numChannels =
     Inr (wav_header (length pcmData) rate numChannels @ pcmData)"
  unfolding pcmToWav_def Let_def replicate_add zeros44
  by (simp add: setUint8_def setUint16_def setUint32_def js_def
      Uint8Array_set_def wav_header_def le16_bytes_def le32_bytes_def)

lemma length_wav_header: "length (wav_header n rate ch) = 44"
  by (simp add: wav_header_def le16_bytes_def le32_bytes_def js_def)

lemma unat_of_nat_byte: "unat (of_nat v :: byte) = v mod 256"
  by (simp add: unat_of_nat)

lemma le16_read: "v < 65536 \<Longrightarrow> v mod 256 + 256 * ((v div 256) mod 256) = (v::nat)"
  by simp

lemma le32_read:
  assumes "v < 4294967296"
  shows "v mod 256 + 256 * ((v div 256) mod 256) + 65536 * ((v div 65536) mod 256)
       + 16777216 * ((v div 16777216) mod 256) = (v::nat)"
proof -
  define v1 where "v1 = v div 256"
  define v2 where "v2 = v1 div 256"
  define v3 where "v3 = v2 div 256"
  have d2: "v div 65536 = v2" and d3: "v div 16777216 = v3"
    by (simp_all add: v1_def v2_def v3_def div_mult2_eq)
  have "v3 < 256"
    using assms unfolding d3 [symmetric] by simp
  then have "v3 mod 256 = v3" by simp
  moreover have "v = v mod 256 + 256 * v1" "v1 = v1 mod 256 + 256 * v2" "v2 = v2 mod 256 + 256 * v3"
    by (simp_all add: v1_def v2_def v3_def)
  ultimately show ?thesis
    unfolding d2 d3 v1_def [symmetric] by linarith
qed

lemma getUint16_le_field:
  assumes "take 2 (drop k buf) = le16_bytes v" and "v < 65536"
  shows "getUint16_le buf k = v"
proof -
  have "length (take 2 (drop k buf)) = 2"
    by (simp add: assms(1) le16_bytes_def)
  then have len: "k + 2 \<le> length buf" by simp
  have "buf ! (k + i) = le16_bytes v ! i" if "i < 2" for i
  proof -
    have "take 2 (drop k buf) ! i = buf ! (k + i)"
      using that len by simp
    then show ?thesis by (simp add: assms(1))
  qed
  from this [of 0] this [of 1]
  have "unat (buf ! k) = v mod 256" "unat (buf ! (k + 1)) = (v div 256) mod 256"
    by (simp_all add: le16_bytes_def unat_of_nat_byte)
  then show ?thesis
    unfolding getUint16_le_def by (simp only: le16_read [OF assms(2)])
qed

lemma getUint32_le_field:
  assumes "take 4 (drop k buf) = le32_bytes v" and "v < 4294967296"
  shows "getUint32_le buf k = v"
proof -
  have "length (take 4 (drop k buf)) = 4"
    by (simp add: assms(1) le32_bytes_def)
  then have len: "k + 4 \<le> length buf" by simp
  have "buf ! (k + i) = le32_bytes v ! i" if "i < 4" for i
  proof -
    have "take 4 (drop k buf) ! i = buf ! (k + i)"
      using that len by simp
    then show ?thesis by (simp add: assms(1))
  qed
  from this [of 0] this [of 1] this [of 2] this [of 3]
  have "unat (buf ! k) = v mod 256" "unat (buf ! (k + 1)) = (v div 256) mod 256"
    "unat (buf ! (k + 2)) = (v div 65536) mod 256"
    "unat (buf ! (k + 3)) = (v div 16777216) mod 256"
    by (simp_all add: le32_bytes_def unat_of_nat_byte)
  then show ?thesis
    unfolding getUint32_le_def by (simp only: le32_read [OF assms(2)])
qed

lemma header_fields16:
  "take 2 (drop 20 (wav_header n r c @ pcm)) = le16_bytes 1"
  "take 2 (drop 22 (wav_header n r c @ pcm)) = le16_bytes c"
  "take 2 (drop 32 (wav_header n r c @ pcm)) = le16_bytes (c * 2)"
  "take 2 (drop 34 (wav_header n r c @ pcm)) = le16_bytes 16"
  by (simp_all add: wav_header_def le16_bytes_def le32_bytes_def js_def)

lemma header_fields32:
  "take 4 (drop 4 (wav_header n r c @ pcm)) = le32_bytes (36 + n)"
  "take 4 (drop 16 (wav_header n r c @ pcm)) = le32_bytes 16"
  "take 4 (drop 24 (wav_header n r c @ pcm)) = le32_bytes r"
  "take 4 (drop 28 (wav_header n r c @ pcm)) = le32_bytes (r * c * 2)"
  "take 4 (drop 40 (wav_header n r c @ pcm)) = le32_bytes n"
  by (simp_all add: wav_header_def le16_bytes_def le32_bytes_def js_def)

lemma header_tags:
  "take 4 (wav_header n r c @ pcm) = map of_nat (js ''RIFF'')"
  "take 4 (drop 8 (wav_header n r c @ pcm)) = map of_nat (js ''WAVE'')"
  "take 4 (drop 12 (wav_header n r c @ pcm)) = map of_nat (js ''fmt '')"
  "take 4 (drop 36 (wav_header n r c @ pcm)) = map of_nat (js ''data'')"
  "drop 44 (wav_header n r c @ pcm) = pcm"
  "take 4 (wav_header n r c) = map of_nat (js ''RIFF'')"
  "take 4 (drop 8 (wav_header n r c)) = map of_nat (js ''WAVE'')"
  "take 4 (drop 12 (wav_header n r c)) = map of_nat (js ''fmt '')"
  "take 4 (drop 36 (wav_header n r c)) = map of_nat (js ''data'')"
  by (simp_all add: wav_header_def le16_bytes_def le32_bytes_def js_def)

text \<open>
  Claim C5. For every PCM chunk, the empty one included, \<^verbatim>\<open>pcmToWav\<close> returns
  \<open>44 + len\<close> bytes: the chunk after a 44-byte header that carries the tags
  \<^verbatim>\<open>RIFF\<close>, \<^verbatim>\<open>WAVE\<close>, \<^verbatim>\<open>fmt \<close> and \<^verbatim>\<open>data\<close>, a format chunk of size 16, the PCM
  format tag 1 and 16 bits per sample, and that declares the given channel count, the
  given sample rate, the byte rate \<open>sampleRate * channels * 2\<close>, the block align
  \<open>channels * 2\<close>, the RIFF size \<open>36 + len\<close> and the data size \<open>len\<close>, each whenever
  the value fits the width of its field (16 or 32 bits).
\<close>

theorem pcmToWav_container:
  "\<exists>wav. pcmToWav pcmData rate numChannels = Inr wav
     \<and> length wav = 44 + length pcmData
     \<and> drop 44 wav = pcmData
     \<and> take 4 wav = map of_nat (js ''RIFF'')
     \<and> take 4 (drop 8 wav) = map of_nat (js ''WAVE'')
     \<and> take 4 (drop 12 wav) = map of_nat (js ''fmt '')
     \<and> take 4 (drop 36 wav) = map of_nat (js ''data'')
     \<and> getUint32_le wav 16 = 16
     \<and> getUint16_le wav 20 = 1
     \<and> getUint16_le wav 34 = 16
     \<and> (numChannels < 65536 \<longrightarrow> getUint16_le wav 22 = numChannels)
     \<and> (rate < 4294967296 \<longrightarrow> getUint32_le wav 24 = rate)
     \<and> (rate * numChannels * 2 < 4294967296 \<longrightarrow> getUint32_le wav 28 = rate * numChannels * 2)
     \<and> (numChannels * 2 < 65536 \<longrightarrow> getUint16_le wav 32 = numChannels * 2)
     \<and> (36 + length pcmData < 4294967296 \<longrightarrow>
           getUint32_le wav 4 = 36 + length pcmData \<and> getUint32_le wav 40 = length pcmData)"
proof (intro exI conjI impI)
  show "pcmToWav pcmData rate numChannels = Inr (wav_header (length pcmData) rate numChannels @ pcmData)"
    by (rule pcmToWav_eq)
qed (simp_all add: length_wav_header header_tags
      getUint16_le_field [OF header_fields16(1)] getUint16_le_field [OF header_fields16(2)]
      getUint16_le_field [OF header_fields16(3)] getUint16_le_field [OF header_fields16(4)]
      getUint32_le_field [OF header_fields32(1)] getUint32_le_field [OF header_fields32(2)]
      getUint32_le_field [OF header_fields32(3)] getUint32_le_field [OF header_fields32(4)]
      getUint32_le_field [OF header_fields32(5)])

theorem pcmToWav_container_witness:
  "\<exists>wav. pcmToWav [1, 2] 24000 1 = Inr wav \<and> length wav = 46
     \<and> getUint16_le wav 20 = 1 \<and> getUint16_le wav 22 = 1 \<and> getUint32_le wav 24 = 24000
     \<and> getUint32_le wav 28 = 48000 \<and> getUint16_le wav 32 = 2 \<and> getUint16_le wav 34 = 16
     \<and> getUint32_le wav 4 = 38 \<and> getUint32_le wav 40 = 2"
  using pcmToWav_container [of "[1, 2]" 24000 1] by auto

text \<open>The empty chunk at the default rate and channel count: the header alone.\<close>

lemma pcmToWav_empty:
  "pcmToWav [] 24000 1 =
     Inr [0x52, 0x49, 0x46, 0x46, 36, 0, 0, 0, 0x57, 0x41, 0x56, 0x45, 0x66, 0x6D, 0x74, 0x20,
          16, 0, 0, 0, 1, 0, 1, 0, 0xC0, 0x5D, 0, 0, 0x80, 0xBB, 0, 0, 2, 0, 16, 0,
          0x64, 0x61, 0x74, 0x61, 0, 0, 0, 0]"
  by (simp add: pcmToWav_eq wav_header_def le16_bytes_def le32_bytes_def js_def)

section \<open>Properties of the live session\<close>

text \<open>
  Claim C2. In every session state, whatever the number of active playback units, the
  interruption branch of \<^verbatim>\<open>onmessage\<close> calls \<^verbatim>\<open>stop\<close> on every active source, in the
  order of the set, and returns a state whose active set is empty and whose cursor
  \<^verbatim>\<open>nextStartTime\<close> equals the clock; a message that only signals the interruption
  leaves the handler in exactly that state, with no exception.
\<close>

theorem interrupt_clears:
  "snd (interrupt s now) = map SourceStop (activeSources s)
   \<and> activeSources (fst (interrupt s now)) = []
   \<and> nextStartTime (fst (interrupt s now)) = now
   \<and> onmessage s \<lparr>interrupted = True, inlineData = None\<rparr> now
       = (fst (interrupt s now), snd (interrupt s now), None)"
  by (simp add: interrupt_def onmessage_def)

theorem interrupt_clears_witness:
  "snd (interrupt (initial_session\<lparr>activeSources := [4, 5, 6], nextStartTime := 9\<rparr>) 7)
     = [SourceStop 4, SourceStop 5, SourceStop 6]
   \<and> activeSources (fst (interrupt (initial_session\<lparr>activeSources := [4, 5, 6], nextStartTime := 9\<rparr>) 7)) = []
   \<and> nextStartTime (fst (interrupt (initial_session\<lparr>activeSources := [4, 5, 6], nextStartTime := 9\<rparr>) 7)) = 7"
  using interrupt_clears [of "initial_session\<lparr>activeSources := [4, 5, 6], nextStartTime := 9\<rparr>" 7]
  by (simp add: initial_session_def)


lemma idle_cleanup: "idle (fst (cleanup s))"
  by (simp add: idle_def cleanup_def)

lemma snd_cleanup: "snd (cleanup s) = releases s"
  by (simp add: cleanup_def releases_def split: option.splits)

text \<open>
  Transport close and transport error go through the same teardown and end idle, with
  the calls one teardown owes.
\<close>

lemma handlers_teardown:
  "idle (fst (onclose s)) \<and> snd (onclose s) = releases s
   \<and> idle (fst (onerror s e)) \<and> snd (onerror s e) = releases s"
  by (simp add: onclose_def onerror_def idle_cleanup snd_cleanup) (simp add: releases_def)

lemma duration_nonneg: "0 \<le> duration b"
  by (simp add: duration_def)

lemma base64ToUint8Array_empty: "base64ToUint8Array [] = Inr []"
  by (simp add: base64ToUint8Array_def atob_def strip_padding_def)

lemma pcmToAudioBuffer_empty: "pcmToAudioBuffer [] rate numChannels = Inl NotSupportedError"
  by (simp add: pcmToAudioBuffer_def createBuffer_def)

lemma onmessage_audio:
  assumes "base64ToUint8Array b64Data = Inr pcmData"
    and "pcmToAudioBuffer pcmData 24000 1 = Inr audioBuffer"
  shows "onmessage s \<lparr>interrupted = False, inlineData = Some b64Data\<rparr> currentTime =
     (fst (schedulePlayback s audioBuffer currentTime),
      snd (schedulePlayback s audioBuffer currentTime), None)"
proof -
  have "b64Data \<noteq> []"
    using assms by (auto simp: base64ToUint8Array_empty pcmToAudioBuffer_empty)
  then show ?thesis
    using assms by (simp add: onmessage_def split_beta)
qed

lemma schedulePlayback_start:
  "startTimes (snd (schedulePlayback s b t)) = [max (nextStartTime s) t]"
  by (simp add: schedulePlayback_def Let_def)

lemma schedulePlayback_cursor:
  "nextStartTime (fst (schedulePlayback s b t)) = max (nextStartTime s) t + duration b"
  by (simp add: schedulePlayback_def Let_def)

text \<open>
  Claim C1. Every inbound audio chunk that decodes is started at
  \<open>max cursor now\<close>, and afterwards the cursor is that start time plus the duration of
  the decoded buffer. Hence for three chunks handled one after the other, the second and
  the third each arriving no later than the cursor (before the audio scheduled so far
  ends), the second starts at the first start plus the first duration and the third at
  the second start plus the second duration; the start times do not decrease, and no
  call of the handler raises.
\<close>

theorem schedule_gapless:
  assumes "base64ToUint8Array c1 = Inr p1" and "pcmToAudioBuffer p1 24000 1 = Inr b1"
    and "base64ToUint8Array c2 = Inr p2" and "pcmToAudioBuffer p2 24000 1 = Inr b2"
    and "base64ToUint8Array c3 = Inr p3" and "pcmToAudioBuffer p3 24000 1 = Inr b3"
    and "onmessage s0 \<lparr>interrupted = False, inlineData = Some c1\<rparr> t1 = (s1, e1, x1)"
    and "onmessage s1 \<lparr>interrupted = False, inlineData = Some c2\<rparr> t2 = (s2, e2, x2)"
    and "onmessage s2 \<lparr>interrupted = False, inlineData = Some c3\<rparr> t3 = (s3, e3, x3)"
    and "t2 \<le> nextStartTime s1" and "t3 \<le> nextStartTime s2"
  shows "startTimes e1 = [max (nextStartTime s0) t1]
     \<and> nextStartTime s1 = max (nextStartTime s0) t1 + duration b1
     \<and> startTimes e2 = [max (nextStartTime s0) t1 + duration b1]
     \<and> nextStartTime s2 = max (nextStartTime s0) t1 + duration b1 + duration b2
     \<and> startTimes e3 = [max (nextStartTime s0) t1 + duration b1 + duration b2]
     \<and> nextStartTime s3 = max (nextStartTime s0) t1 + duration b1 + duration b2 + duration b3
     \<and> max (nextStartTime s0) t1 \<le> max (nextStartTime s0) t1 + duration b1
     \<and> max (nextStartTime s0) t1 + duration b1
          \<le> max (nextStartTime s0) t1 + duration b1 + duration b2
     \<and> x1 = None \<and> x2 = None \<and> x3 = None"
proof -
  have r1: "s1 = fst (schedulePlayback s0 b1 t1)" "e1 = snd (schedulePlayback s0 b1 t1)" "x1 = None"
    using onmessage_audio [OF assms(1,2), of s0 t1] assms(7) by simp_all
  have r2: "s2 = fst (schedulePlayback s1 b2 t2)" "e2 = snd (schedulePlayback s1 b2 t2)" "x2 = None"
    using onmessage_audio [OF assms(3,4), of s1 t2] assms(8) by simp_all
  have r3: "s3 = fst (schedulePlayback s2 b3 t3)" "e3 = snd (schedulePlayback s2 b3 t3)" "x3 = None"
    using onmessage_audio [OF assms(5,6), of s2 t3] assms(9) by simp_all
  have c1: "nextStartTime s1 = max (nextStartTime s0) t1 + duration b1"
    by (simp add: r1 schedulePlayback_cursor)
  have m2: "max (nextStartTime s1) t2 = nextStartTime s1"
    using assms(10) by simp
  have c2: "nextStartTime s2 = nextStartTime s1 + duration b2"
    by (simp add: r2 schedulePlayback_cursor m2)
  have m3: "max (nextStartTime s2) t3 = nextStartTime s2"
    using assms(11) by simp
  have c3: "nextStartTime s3 = nextStartTime s2 + duration b3"
    by (simp add: r3 schedulePlayback_cursor m3)
  have "startTimes e1 = [max (nextStartTime s0) t1]"
    by (simp add: r1 schedulePlayback_start)
  moreover have "startTimes e2 = [nextStartTime s1]"
    by (simp add: r2 schedulePlayback_start m2)
  moreover have "startTimes e3 = [nextStartTime s2]"
    by (simp add: r3 schedulePlayback_start m3)
  ultimately show ?thesis
    using c1 c2 c3 r1(3) r2(3) r3(3) duration_nonneg [of b1] duration_nonneg [of b2]
    by simp
qed

theorem schedule_gapless_witness:
  "let m = \<lparr>interrupted = False, inlineData = Some (js ''AAAAAA=='')\<rparr>;
       r1 = onmessage initial_session m 0;
       r2 = onmessage (fst r1) m 0;
       r3 = onmessage (fst r2) m (1 / 24000)
   in startTimes (fst (snd r1)) = [0] \<and> startTimes (fst (snd r2)) = [2 / 24000]
      \<and> startTimes (fst (snd r3)) = [4 / 24000] \<and> nextStartTime (fst r3) = 6 / 24000"
proof -
  define m where "m = \<lparr>interrupted = False, inlineData = Some (js ''AAAAAA=='')\<rparr>"
  define b where "b = \<lparr>numberOfChannels = 1, frameCount = 2, sampleRate = 24000,
      channelData = [[0, 0 :: real]]\<rparr>"
  define r1 where "r1 = onmessage initial_session m 0"
  define r2 where "r2 = onmessage (fst r1) m 0"
  define r3 where "r3 = onmessage (fst r2) m (1 / 24000)"
  have d: "base64ToUint8Array (js ''AAAAAA=='') = Inr [0, 0, 0, 0]"
    by code_simp
  have p: "pcmToAudioBuffer [0, 0, 0, 0] 24000 1 = Inr b"
    using pcmToAudioBuffer_mono [of "[0, 0, 0, 0]" 24000] by (simp add: b_def)
  have dur: "duration b = 2 / 24000"
    by (simp add: duration_def b_def)
  have c0: "nextStartTime initial_session = 0"
    by (simp add: initial_session_def)
  have c1: "nextStartTime (fst r1) = 2 / 24000"
    unfolding r1_def m_def onmessage_audio [OF d p] by (simp add: schedulePlayback_cursor dur c0)
  have c2: "nextStartTime (fst r2) = 4 / 24000"
    unfolding r2_def m_def onmessage_audio [OF d p] by (simp add: schedulePlayback_cursor dur c1)
  have e1: "onmessage initial_session \<lparr>interrupted = False, inlineData = Some (js ''AAAAAA=='')\<rparr> 0
      = (fst r1, fst (snd r1), snd (snd r1))"
    by (simp add: r1_def m_def)
  have e2: "onmessage (fst r1) \<lparr>interrupted = False, inlineData = Some (js ''AAAAAA=='')\<rparr> 0
      = (fst r2, fst (snd r2), snd (snd r2))"
    by (simp add: r2_def m_def)
  have e3: "onmessage (fst r2) \<lparr>interrupted = False, inlineData = Some (js ''AAAAAA=='')\<rparr> (1 / 24000)
      = (fst r3, fst (snd r3), snd (snd r3))"
    by (simp add: r3_def m_def)
  have t2: "0 \<le> nextStartTime (fst r1)" and t3: "1 / 24000 \<le> nextStartTime (fst r2)"
    by (simp_all add: c1 c2)
  from schedule_gapless [OF d p d p d p e1 e2 e3 t2 t3]
  have "startTimes (fst (snd r1)) = [0] \<and> startTimes (fst (snd r2)) = [2 / 24000]
      \<and> startTimes (fst (snd r3)) = [4 / 24000] \<and> nextStartTime (fst r3) = 6 / 24000"
    by (simp add: c0 dur)
  then show ?thesis
    by (simp add: Let_def r1_def r2_def r3_def m_def)
qed

lemma length_Int16Array_view: "length (Int16Array_view xs) = length xs div 2"
  by (induction xs rule: Int16Array_view.induct) simp_all

lemma Int16Array_view_butlast:
  "odd (length xs) \<Longrightarrow> Int16Array_view (butlast xs) = Int16Array_view xs"
  by (induction xs rule: Int16Array_view.induct) (auto split: if_splits)

lemma pcmToAudioBuffer_butlast:
  "odd (length pcmData) \<Longrightarrow>
     pcmToAudioBuffer (butlast pcmData) rate numChannels = pcmToAudioBuffer pcmData rate numChannels"
  by (simp add: pcmToAudioBuffer_def Int16Array_view_butlast)

text \<open>
  Claim C7, as amended. An inbound chunk whose PCM byte buffer has odd length, three
  bytes or more, is not rejected: \<^verbatim>\<open>pcmToAudioBuffer\<close> ignores the last byte and decodes
  the \<open>len div 2\<close> whole samples, exactly as it decodes the buffer without that byte, and
  \<^verbatim>\<open>onmessage\<close> schedules the result as it schedules any chunk: no exception, the new
  source node joins the active set, and the cursor moves to \<open>max cursor now\<close> plus
  \<open>(len div 2) / 24000\<close> seconds.
\<close>

theorem odd_chunk_scheduled:
  assumes "base64ToUint8Array b64Data = Inr pcmData"
    and "odd (length pcmData)" and "3 \<le> length pcmData"
  shows "\<exists>audioBuffer.
       pcmToAudioBuffer pcmData 24000 1 = Inr audioBuffer
     \<and> pcmToAudioBuffer (butlast pcmData) 24000 1 = Inr audioBuffer
     \<and> frameCount audioBuffer = length pcmData div 2
     \<and> onmessage s \<lparr>interrupted = False, inlineData = Some b64Data\<rparr> currentTime
         = (fst (schedulePlayback s audioBuffer currentTime),
            snd (schedulePlayback s audioBuffer currentTime), None)
     \<and> activeSources (fst (onmessage s \<lparr>interrupted = False, inlineData = Some b64Data\<rparr> currentTime))
         = Set_add (length (sourceNodes s)) (activeSources s)
     \<and> nextStartTime (fst (onmessage s \<lparr>interrupted = False, inlineData = Some b64Data\<rparr> currentTime))
         = max (nextStartTime s) currentTime + real (length pcmData div 2) / 24000"
proof -
  define audioBuffer where "audioBuffer =
     \<lparr>numberOfChannels = 1, frameCount = length (Int16Array_view pcmData), sampleRate = 24000,
      channelData = [map (\<lambda>w. real_of_int (sint w) / 32768) (Int16Array_view pcmData)]\<rparr>"
  have dec: "pcmToAudioBuffer pcmData 24000 1 = Inr audioBuffer"
    unfolding audioBuffer_def using assms(3) by (intro pcmToAudioBuffer_mono) simp_all
  have fc: "frameCount audioBuffer = length pcmData div 2"
    by (simp add: audioBuffer_def length_Int16Array_view)
  have dur: "duration audioBuffer = real (length pcmData div 2) / 24000"
    by (simp add: duration_def audioBuffer_def length_Int16Array_view)
  note om = onmessage_audio [OF assms(1) dec, of s currentTime]
  show ?thesis
    apply (rule exI [of _ audioBuffer])
    apply (simp only: dec pcmToAudioBuffer_butlast [OF assms(2)] fc om)
    apply (simp add: schedulePlayback_def Let_def dur)
    done
qed

theorem odd_chunk_scheduled_witness:
  "base64ToUint8Array (js ''AAAA'') = Inr [0, 0, 0] \<and> odd (length [0, 0, 0 :: byte])
   \<and> (\<exists>audioBuffer. pcmToAudioBuffer [0, 0, 0] 24000 1 = Inr audioBuffer
        \<and> frameCount audioBuffer = 1
        \<and> onmessage initial_session \<lparr>interrupted = False, inlineData = Some (js ''AAAA'')\<rparr> 0
            = (fst (schedulePlayback initial_session audioBuffer 0),
               snd (schedulePlayback initial_session audioBuffer 0), None))"
proof -
  have d: "base64ToUint8Array (js ''AAAA'') = Inr [0, 0, 0]"
    by code_simp
  show ?thesis
    using d odd_chunk_scheduled [OF d, of initial_session 0] by auto
qed

text \<open>
  Claim C7 says a chunk of odd length leaves the active set and the cursor unchanged. The
  base64 text \<^verbatim>\<open>AAAA\<close> decodes to three zero bytes; handled in the initial state at time
  \<open>0\<close> it puts node \<open>0\<close> into the empty active set and moves the cursor from \<open>0\<close> to
  \<open>1/24000\<close>.
\<close>

theorem odd_chunk_counterexample:
  "base64ToUint8Array (js ''AAAA'') = Inr [0, 0, 0] \<and> odd (length [0, 0, 0 :: byte])
   \<and> activeSources initial_session = []
   \<and> nextStartTime initial_session = 0
   \<and> activeSources (fst (onmessage initial_session
         \<lparr>interrupted = False, inlineData = Some (js ''AAAA'')\<rparr> 0)) = [0]
   \<and> nextStartTime (fst (onmessage initial_session
         \<lparr>interrupted = False, inlineData = Some (js ''AAAA'')\<rparr> 0)) = 1 / 24000
   \<and> snd (snd (onmessage initial_session
         \<lparr>interrupted = False, inlineData = Some (js ''AAAA'')\<rparr> 0)) = None"
proof -
  have d: "base64ToUint8Array (js ''AAAA'') = Inr [0, 0, 0]"
    by code_simp
  have b: "pcmToAudioBuffer [0, 0, 0] 24000 1 =
      Inr \<lparr>numberOfChannels = 1, frameCount = 1, sampleRate = 24000, channelData = [[0]]\<rparr>"
    using pcmToAudioBuffer_mono [of "[0, 0, 0]" 24000] by simp
  show ?thesis
    using d onmessage_audio [OF d b, of initial_session 0]
    by (simp add: schedulePlayback_def Let_def duration_def initial_session_def Set_add_def)
qed

text \<open>
  A chunk of one byte has no whole sample: \<^verbatim>\<open>createBuffer\<close> raises on the frame count
  \<open>0\<close>, nothing in \<^verbatim>\<open>onmessage\<close> catches it, and the state stays as it was.
\<close>

lemma one_byte_chunk_raises:
  "onmessage s \<lparr>interrupted = False, inlineData = Some (js ''AA=='')\<rparr> currentTime
     = (s, [], Some NotSupportedError)"
proof -
  have d: "base64ToUint8Array (js ''AA=='') = Inr [0]"
    by code_simp
  have "js ''AA=='' \<noteq> []" by (simp add: js_def)
  then show ?thesis
    by (simp add: onmessage_def d pcmToAudioBuffer_def createBuffer_def)
qed














section \<open>Properties of the error handlers\<close>

lemma js_includes_iff: "js_includes hay needle \<longleftrightarrow> contains hay needle"
proof (induction hay)
  case Nil
  then show ?case by (auto simp: contains_def)
next
  case (Cons c cs)
  show ?case
  proof
    assume "js_includes (c # cs) needle"
    then consider "take (length needle) (c # cs) = needle" | "js_includes cs needle"
      by auto
    then show "contains (c # cs) needle"
    proof cases
      case 1
      then have "c # cs = [] @ needle @ drop (length needle) (c # cs)"
        by (metis append_Nil append_take_drop_id)
      then show ?thesis unfolding contains_def by blast
    next
      case 2
      then obtain p q where "cs = p @ needle @ q"
        using Cons.IH by (auto simp: contains_def)
      then have "c # cs = (c # p) @ needle @ q" by simp
      then show ?thesis unfolding contains_def by blast
    qed
  next
    assume "contains (c # cs) needle"
    then obtain p q where pq: "c # cs = p @ needle @ q"
      by (auto simp: contains_def)
    show "js_includes (c # cs) needle"
    proof (cases p)
      case Nil
      then have "take (length needle) (c # cs) = needle"
        using pq by simp
      then show ?thesis by simp
    next
      case (Cons a p')
      then have "cs = p' @ needle @ q" using pq by simp
      then have "contains cs needle" unfolding contains_def by blast
      then show ?thesis using Cons.IH by simp
    qed
  qed
qed

text \<open>
  Claim C6, as amended. \<^verbatim>\<open>onerror\<close> of the live session and the \<^verbatim>\<open>catch\<close> of the
  text-to-speech request report the quota notice if and only if the error text contains
  \<^verbatim>\<open>429\<close>, \<^verbatim>\<open>quota\<close> or \<^verbatim>\<open>Resource has been exhausted\<close>; every other text gets the
  generic notice.
\<close>

theorem quota_classification:
  "(is_quota_error msg \<longleftrightarrow>
      contains msg (js ''429'') \<or> contains msg (js ''quota'')
        \<or> contains msg (js ''Resource has been exhausted''))
   \<and> notification (fst (onerror s e)) =
        Some (if is_quota_error (errorMessage e) then QuotaExceededNotice
              else LiveApiErrorNotice)
   \<and> tts_catch e =
        (if is_quota_error (errorMessage e) then TtsQuotaExceededNotice
         else TtsErrorNotice (errorMessage e))"
  by (simp add: is_quota_error_def js_includes_iff onerror_def cleanup_def tts_catch_def)

theorem quota_classification_witness:
  "notification (fst (onerror initial_session
      \<lparr>message = Some (js ''HTTP 429 Too Many Requests''), toString = js ''Error''\<rparr>))
     = Some QuotaExceededNotice
   \<and> notification (fst (onerror initial_session
      \<lparr>message = None, toString = js ''socket closed''\<rparr>))
     = Some LiveApiErrorNotice"
proof -
  have "is_quota_error (js ''HTTP 429 Too Many Requests'')"
    "\<not> is_quota_error (js ''socket closed'')"
    by code_simp+
  then show ?thesis
    using quota_classification [of _ initial_session
        "\<lparr>message = Some (js ''HTTP 429 Too Many Requests''), toString = js ''Error''\<rparr>"]
      quota_classification [of _ initial_session
        "\<lparr>message = None, toString = js ''socket closed''\<rparr>"]
    by (simp add: errorMessage_def js_def)
qed

text \<open>
  Claim C6 names two texts only. The text \<^verbatim>\<open>Resource has been exhausted\<close> contains
  neither \<^verbatim>\<open>429\<close> nor \<^verbatim>\<open>quota\<close> and still gets the quota notice from both handlers.
\<close>

theorem quota_classification_counterexample:
  "\<not> contains (js ''Resource has been exhausted'') (js ''429'')
   \<and> \<not> contains (js ''Resource has been exhausted'') (js ''quota'')
   \<and> notification (fst (onerror initial_session
        \<lparr>message = Some (js ''Resource has been exhausted''), toString = js ''Error''\<rparr>))
       = Some QuotaExceededNotice
   \<and> tts_catch \<lparr>message = Some (js ''Resource has been exhausted''), toString = js ''Error''\<rparr>
       = TtsQuotaExceededNotice"
proof -
  have "\<not> js_includes (js ''Resource has been exhausted'') (js ''429'')"
    "\<not> js_includes (js ''Resource has been exhausted'') (js ''quota'')"
    "js_includes (js ''Resource has been exhausted'') (js ''Resource has been exhausted'')"
    by code_simp+
  then show ?thesis
    by (simp add: js_includes_iff [symmetric] onerror_def cleanup_def tts_catch_def
        is_quota_error_def errorMessage_def js_def)
qed

text \<open>The \<^verbatim>\<open>catch\<close> around the start of the session tests for the first two texts only.\<close>

lemma startSession_is_quota_error_iff:
  "startSession_is_quota_error msg \<longleftrightarrow>
     contains msg (js ''429'') \<or> contains msg (js ''quota'')"
  by (simp add: startSession_is_quota_error_def js_includes_iff)

end
